theory Spec2Isabelle
  imports Complex_Main "HOL-Library.AList"
begin

section \<open>Python dictionaries\<close>

text \<open>
  A Python \<^verbatim>\<open>dict\<close> (and an \<^verbatim>\<open>OrderedDict\<close>) is the list of its items in insertion
  order. \<^verbatim>\<open>d[k] = v\<close> is \<^const>\<open>AList.update\<close>: an existing key keeps its place and
  takes the new value, a new key goes to the end. \<^verbatim>\<open>d.get(k)\<close> is \<^const>\<open>map_of\<close>,
  \<^verbatim>\<open>d.pop(k)\<close> is \<^const>\<open>AList.delete\<close>, \<^verbatim>\<open>d.clear()\<close> leaves \<open>[]\<close>, and a dict is
  falsy exactly when it is \<open>[]\<close>.
  Dictionaries are compared by their contents: the functions below return the
  dictionary that the Python code returns a reference to.
\<close>

type_synonym ('k, 'v) dict = "('k \<times> 'v) list"

definition falsy :: "('k, 'v) dict option \<Rightarrow> bool" where
  \<comment> \<open>\<^verbatim>\<open>not d\<close> for a value that is \<^verbatim>\<open>None\<close> or a dict\<close>
  "falsy d = (case d of None \<Rightarrow> True | Some items \<Rightarrow> items = [])"

section \<open>core/config.py\<close>

subsection \<open>Configuration and ConfigurableOptions\<close>

record Configuration =
  id' :: string
  type' :: nat  \<comment> \<open>the value of the \<^verbatim>\<open>ConfigDataTypes\<close> member\<close>
  label :: string
  default' :: string
  options' :: "string list"

definition Configuration_init ::
  "string \<Rightarrow> nat \<Rightarrow> string option \<Rightarrow> string \<Rightarrow> string list option \<Rightarrow> Configuration" where
  "Configuration_init i t lbl dflt opts =
     \<lparr> id' = i, type' = t,
       label = (case lbl of None \<Rightarrow> i | Some l \<Rightarrow> if l = [] then i else l),
       default' = dflt,
       options' = (case opts of None \<Rightarrow> [] | Some os \<Rightarrow> os) \<rparr>"

text \<open>
  Modelled from the spec: the enumeration \<^verbatim>\<open>RegisterTlvs\<close> of
  \<^verbatim>\<open>core.emulator.enumerations\<close>, the role tag of a model class. The code names the
  members \<^verbatim>\<open>WIRELESS\<close> (radio medium) and \<^verbatim>\<open>MOBILITY\<close>; every other member is
  \<open>OTHER\<close> with its value.
\<close>

datatype RegisterTlvs = WIRELESS | MOBILITY | OTHER nat

record ConfigurableOptions =
  name :: string
  bitmap :: "string option"
  options :: "Configuration list"

text \<open>A wireless model class: \<^verbatim>\<open>ConfigurableOptions\<close> with the \<^verbatim>\<open>config_type\<close> attribute.\<close>

record WirelessModelType = ConfigurableOptions +
  config_type :: RegisterTlvs

definition configurations :: "'a ConfigurableOptions_scheme \<Rightarrow> Configuration list" where
  "configurations cls = options cls"

definition default_values :: "'a ConfigurableOptions_scheme \<Rightarrow> (string, string) dict" where
  \<comment> \<open>\<^verbatim>\<open>OrderedDict([(config.id, config.default) for config in cls.configurations()])\<close>\<close>
  "default_values cls =
     fold (\<lambda>kv d. AList.update (fst kv) (snd kv) d)
       (map (\<lambda>config. (id' config, default' config)) (configurations cls)) []"

subsection \<open>ConfigurableManager\<close>

text \<open>
  The second-level key is a model name, or the integer sentinel \<open>-1\<close> when no
  configuration type is given.
\<close>

datatype type_key = KInt int | KStr string

type_synonym config = "(string, string) dict"

record ConfigurableManager =
  node_configurations :: "(int, (type_key, config) dict) dict"

definition default_node :: int where
  "default_node = - 1"

definition default_type :: type_key where
  "default_type = KInt default_node"

definition nodes :: "'a ConfigurableManager_scheme \<Rightarrow> int list" where
  "nodes self = filter (\<lambda>x. x \<noteq> default_node) (map fst (node_configurations self))"

definition config_reset ::
  "int option \<Rightarrow> 'a ConfigurableManager_scheme \<Rightarrow> 'a ConfigurableManager_scheme" where
  \<comment> \<open>\<^verbatim>\<open>not node_id\<close> holds for \<^verbatim>\<open>None\<close> and for \<^verbatim>\<open>0\<close>\<close>
  "config_reset node_id self =
     (case node_id of
        None \<Rightarrow> self\<lparr>node_configurations := []\<rparr>
      | Some n \<Rightarrow>
          if n = 0 then self\<lparr>node_configurations := []\<rparr>
          else if n \<in> set (map fst (node_configurations self)) then
            self\<lparr>node_configurations := AList.delete n (node_configurations self)\<rparr>
          else self)"

definition set_config ::
  "string \<Rightarrow> string \<Rightarrow> int \<Rightarrow> type_key \<Rightarrow>
   'a ConfigurableManager_scheme \<Rightarrow> 'a ConfigurableManager_scheme" where
  "set_config i value node_id ctype self =
     (let node_configs =
            (case map_of (node_configurations self) node_id of None \<Rightarrow> [] | Some nc \<Rightarrow> nc);
          node_type_configs =
            (case map_of node_configs ctype of None \<Rightarrow> [] | Some ntc \<Rightarrow> ntc)
      in self\<lparr>node_configurations :=
           AList.update node_id
             (AList.update ctype (AList.update i value node_type_configs) node_configs)
             (node_configurations self)\<rparr>)"

definition set_configs ::
  "config \<Rightarrow> int \<Rightarrow> type_key \<Rightarrow>
   'a ConfigurableManager_scheme \<Rightarrow> 'a ConfigurableManager_scheme" where
  "set_configs cfg node_id ctype self =
     (let node_configs =
            (case map_of (node_configurations self) node_id of None \<Rightarrow> [] | Some nc \<Rightarrow> nc)
      in self\<lparr>node_configurations :=
           AList.update node_id (AList.update ctype cfg node_configs)
             (node_configurations self)\<rparr>)"

definition get_configs ::
  "int \<Rightarrow> type_key \<Rightarrow> 'a ConfigurableManager_scheme \<Rightarrow> config option" where
  "get_configs node_id ctype self =
     (case map_of (node_configurations self) node_id of
        None \<Rightarrow> None
      | Some node_configs \<Rightarrow>
          if node_configs \<noteq> [] then map_of node_configs ctype else None)"

definition get_config ::
  "string \<Rightarrow> int \<Rightarrow> type_key \<Rightarrow> string option \<Rightarrow>
   'a ConfigurableManager_scheme \<Rightarrow> string option" where
  "get_config i node_id ctype dflt self =
     (let node_type_configs = get_configs node_id ctype self
      in if falsy node_type_configs then dflt
         else (case map_of (the node_type_configs) i of None \<Rightarrow> dflt | Some v \<Rightarrow> Some v))"

definition get_all_configs ::
  "int \<Rightarrow> 'a ConfigurableManager_scheme \<Rightarrow> (type_key, config) dict option" where
  "get_all_configs node_id self = map_of (node_configurations self) node_id"

subsection \<open>ModelManager\<close>

record ModelManager = ConfigurableManager +
  models :: "(string, WirelessModelType) dict"
  node_models :: "(int, string) dict"

text \<open>
  The exceptions of the code. Its two \<^verbatim>\<open>raise\<close> statements, told apart by their message:
  \<^verbatim>\<open>ValueError(f"{model_name} is an invalid model")\<close> and
  \<^verbatim>\<open>ValueError("no model set to update for node(%s)", self.id)\<close>; and the two that
  \<^verbatim>\<open>int(round(alt))\<close> raises: \<^verbatim>\<open>ValueError\<close> for a NaN, \<^verbatim>\<open>OverflowError\<close> for an infinity.
\<close>

datatype error =
    ValueError_invalid_model string
  | ValueError_no_model_set int
  | ValueError_nan_to_integer
  | OverflowError_infinity_to_integer

definition get_model_config ::
  "int \<Rightarrow> string \<Rightarrow> ModelManager \<Rightarrow> (error + config) \<times> ModelManager" where
  "get_model_config node_id model_name self =
     (case map_of (models self) model_name of
        None \<Rightarrow> (Inl (ValueError_invalid_model model_name), self)
      | Some model_class \<Rightarrow>
          (let cfg = get_configs node_id (KStr model_name) self
           in if falsy cfg then
                (let cfg' = default_values model_class
                 in (Inr cfg', set_configs cfg' node_id (KStr model_name) self))
              else (Inr (the cfg), self)))"

definition merge_config :: "config \<Rightarrow> config \<Rightarrow> config" where
  \<comment> \<open>\<^verbatim>\<open>for key in config: model_config[key] = config[key]\<close>; a key read from the
      dict is always found in it\<close>
  "merge_config cfg model_config =
     fold (\<lambda>key mc. case map_of cfg key of None \<Rightarrow> mc | Some value \<Rightarrow> AList.update key value mc)
       (map fst cfg) model_config"

definition set_model_config ::
  "int \<Rightarrow> string \<Rightarrow> config option \<Rightarrow> ModelManager \<Rightarrow> (error + unit) \<times> ModelManager" where
  "set_model_config node_id model_name cfg self =
     (case map_of (models self) model_name of
        None \<Rightarrow> (Inl (ValueError_invalid_model model_name), self)
      | Some model_class \<Rightarrow>
          (case get_model_config node_id model_name self of
             (Inl e, self1) \<Rightarrow> (Inl e, self1)
           | (Inr model_config, self1) \<Rightarrow>
               (let cfg1 = (if falsy cfg then [] else the cfg);
                    model_config1 = merge_config cfg1 model_config;
                    self2 = self1\<lparr>node_models :=
                              AList.update node_id model_name (node_models self1)\<rparr>
                in (Inr (), set_configs model_config1 node_id (KStr model_name) self2))))"

text \<open>A sequence of \<^verbatim>\<open>set_model_config\<close> calls for one node and model, stopping at the
  first call that raises.\<close>

fun set_model_config_calls ::
  "int \<Rightarrow> string \<Rightarrow> config option list \<Rightarrow> ModelManager \<Rightarrow> (error + unit) \<times> ModelManager" where
  "set_model_config_calls node_id model_name [] self = (Inr (), self)"
| "set_model_config_calls node_id model_name (cfg # cfgs) self =
     (case set_model_config node_id model_name cfg self of
        (Inl e, self1) \<Rightarrow> (Inl e, self1)
      | (Inr u, self1) \<Rightarrow> set_model_config_calls node_id model_name cfgs self1)"

text \<open>The overrides of one call as a map: an omitted argument overrides nothing.\<close>

definition overrides_of :: "config option \<Rightarrow> (string \<rightharpoonup> string)" where
  "overrides_of cfg = (case cfg of None \<Rightarrow> Map.empty | Some items \<Rightarrow> map_of items)"

text \<open>What \<^verbatim>\<open>get_model_config\<close> returns for a registered model: the stored
  configuration, or the class's default values when nothing (or an empty dict) is stored.\<close>

definition stored_or_default ::
  "int \<Rightarrow> string \<Rightarrow> WirelessModelType \<Rightarrow> ModelManager \<Rightarrow> config" where
  "stored_or_default n m cls s =
     (if falsy (get_configs n (KStr m) s) then default_values cls
      else the (get_configs n (KStr m) s))"

text \<open>The state after \<open>k\<close> calls of \<^verbatim>\<open>get_model_config\<close> for one node and model.\<close>

fun after_get_model_config :: "nat \<Rightarrow> int \<Rightarrow> string \<Rightarrow> ModelManager \<Rightarrow> ModelManager" where
  "after_get_model_config 0 node_id model_name self = self"
| "after_get_model_config (Suc k) node_id model_name self =
     after_get_model_config k node_id model_name (snd (get_model_config node_id model_name self))"

subsection \<open>The example registry\<close>

text \<open>The model \<^verbatim>\<open>basic-range\<close> with the single option \<^verbatim>\<open>range\<close>, default \<^verbatim>\<open>275\<close>, in an
  otherwise empty manager; and a model without options.\<close>

definition basic_range :: WirelessModelType where
  "basic_range =
     \<lparr> name = ''basic-range'', bitmap = None,
       options = [Configuration_init ''range'' 10 None ''275'' None],
       config_type = WIRELESS \<rparr>"

definition no_options :: WirelessModelType where
  "no_options = \<lparr> name = ''plain'', bitmap = None, options = [], config_type = OTHER 3 \<rparr>"

definition manager0 :: ModelManager where
  "manager0 =
     \<lparr> node_configurations = [],
       models = [(''basic-range'', basic_range), (''plain'', no_options)],
       node_models = [] \<rparr>"

text \<open>A store with configuration under the scopes 0 and 5.\<close>

definition manager2 :: ModelManager where
  "manager2 = manager0\<lparr>node_configurations :=
     [(0, [(KStr ''basic-range'', [(''range'', ''275'')])]),
      (5, [(KStr ''basic-range'', [(''range'', ''400'')])])]\<rparr>"

section \<open>core/emane/nodes.py\<close>

subsection \<open>What the network node works with\<close>

text \<open>
  Modelled from the spec: the node, position and interface classes of
  \<^verbatim>\<open>core.nodes.base\<close> and \<^verbatim>\<open>core.nodes.interface\<close>, of which \<^verbatim>\<open>EmaneNet\<close> reads the
  fields below. A finite floating-point number is taken as the real number it denotes.
  An altitude is any float: the code rounds it, and \<^verbatim>\<open>round\<close> tells the finite ones from
  a NaN and from the two infinities.
\<close>

datatype pyfloat = Finite real | PosInf | NegInf | NaN

record Position =
  pos_x :: real
  pos_y :: real
  pos_z :: real
  pos_alt :: "pyfloat option"

record CoreNode =
  nodeid :: int
  position :: Position

definition getposition :: "CoreNode \<Rightarrow> real \<times> real \<times> real" where
  \<comment> \<open>Modelled from the spec: \<^verbatim>\<open>node.getposition()\<close> of \<^verbatim>\<open>core.nodes.base\<close>, the owning
      node's current (x, y, z) coordinates\<close>
  "getposition n = (pos_x (position n), pos_y (position n), pos_z (position n))"

text \<open>
  An interface is an object: \<open>ident\<close> is its identity, which is what the
  \<^verbatim>\<open>nemidmap\<close> dictionary hashes and compares.
\<close>

record CoreInterface =
  ident :: nat
  localname :: string
  node :: CoreNode

record LocationEntry =
  nem :: int
  latitude :: real
  longitude :: real
  altitude :: int

type_synonym LocationEvent = "LocationEntry list"

definition LocationEvent_append ::
  "int \<Rightarrow> real \<Rightarrow> real \<Rightarrow> int \<Rightarrow> LocationEvent \<Rightarrow> LocationEvent" where
  \<comment> \<open>Modelled from the spec: \<^verbatim>\<open>LocationEvent.append\<close> of the EMANE bindings; an event is
      an ordered sequence of (numeric id, longitude, latitude, integer altitude) entries\<close>
  "LocationEvent_append nemid lat lon alt event =
     event @ [\<lparr> nem = nemid, latitude = lat, longitude = lon, altitude = alt \<rparr>]"

text \<open>Modelled from the spec: the event sink, which keeps every
  \<^verbatim>\<open>publish(channel, event)\<close> call it has received.\<close>

record EventService =
  published :: "(nat \<times> LocationEvent) list"

definition publish :: "nat \<Rightarrow> LocationEvent \<Rightarrow> EventService \<Rightarrow> EventService" where
  \<comment> \<open>Modelled from the spec: the sink's \<^verbatim>\<open>publish(channel_id, event)\<close> operation\<close>
  "publish channel event svc = svc\<lparr>published := published svc @ [(channel, event)]\<rparr>"

text \<open>
  Modelled from the spec: the session. The node reads \<^verbatim>\<open>session.location.getgeo\<close>, a
  pure function from (x, y, z) to (lat, lon, alt), and \<^verbatim>\<open>session.emane.service\<close>, which
  is \<^verbatim>\<open>None\<close> when no event service is available.
\<close>

record Session =
  getgeo :: "real \<Rightarrow> real \<Rightarrow> real \<Rightarrow> real \<times> real \<times> pyfloat"
  service :: "EventService option"

text \<open>
  Modelled from the spec: a model instance, as built by
  \<^verbatim>\<open>model(session=self.session, _id=self.id)\<close> from a class of
  \<^verbatim>\<open>core.location.mobility\<close>: the class it was built from, the node id it is bound to,
  and the calls it has received, none of which raises. An instance is an object without
  \<^verbatim>\<open>__bool__\<close> or \<^verbatim>\<open>__len__\<close>, so \<^verbatim>\<open>not self.model\<close> holds only of \<^verbatim>\<open>None\<close>.
\<close>

datatype model_call = Update_config config | Set_configs config int

record ModelInstance =
  instance_of :: WirelessModelType
  bound_id :: int
  received :: "model_call list"

definition new_instance :: "WirelessModelType \<Rightarrow> int \<Rightarrow> ModelInstance" where
  "new_instance cls i = \<lparr> instance_of = cls, bound_id = i, received = [] \<rparr>"

definition receive :: "model_call \<Rightarrow> ModelInstance \<Rightarrow> ModelInstance" where
  "receive c inst = inst\<lparr>received := received inst @ [c]\<rparr>"

definition round_half_even :: "real \<Rightarrow> int" where
  \<comment> \<open>Python's \<^verbatim>\<open>round(x)\<close> on a finite float: the nearest integer, a tie going to the
      even one\<close>
  "round_half_even r =
     (let f = \<lfloor>r\<rfloor>; d = r - of_int f
      in if d < 1 / 2 then f
         else if 1 / 2 < d then f + 1
         else if even f then f else f + 1)"

definition py_round :: "pyfloat \<Rightarrow> error + int" where
  \<comment> \<open>Python's \<^verbatim>\<open>int(round(x))\<close>\<close>
  "py_round x =
     (case x of
        Finite r \<Rightarrow> Inr (round_half_even r)
      | PosInf \<Rightarrow> Inl OverflowError_infinity_to_integer
      | NegInf \<Rightarrow> Inl OverflowError_infinity_to_integer
      | NaN \<Rightarrow> Inl ValueError_nan_to_integer)"

subsection \<open>EmaneNet\<close>

record EmaneNet =
  net_id :: int
  conf :: string
  up :: bool
  nemidmap :: "(nat, int) dict"
  model :: "ModelInstance option"
  mobility :: "ModelInstance option"
  session :: Session

definition updatemodel :: "config \<Rightarrow> EmaneNet \<Rightarrow> (error + unit) \<times> EmaneNet" where
  "updatemodel cfg self =
     (case model self of
        None \<Rightarrow> (Inl (ValueError_no_model_set (net_id self)), self)
      | Some m \<Rightarrow>
          (Inr (), self\<lparr>model := Some (receive (Set_configs cfg (net_id self)) m)\<rparr>))"

definition setmodel ::
  "WirelessModelType \<Rightarrow> config \<Rightarrow> EmaneNet \<Rightarrow> (error + unit) \<times> EmaneNet" where
  "setmodel cls cfg self =
     (if config_type cls = WIRELESS then
        (Inr (), self\<lparr>model :=
                   Some (receive (Update_config cfg) (new_instance cls (net_id self)))\<rparr>)
      else if config_type cls = MOBILITY then
        (Inr (), self\<lparr>mobility :=
                   Some (receive (Update_config cfg) (new_instance cls (net_id self)))\<rparr>)
      else (Inr (), self))"

definition setnemid :: "CoreInterface \<Rightarrow> int \<Rightarrow> EmaneNet \<Rightarrow> EmaneNet" where
  "setnemid netif nemid self =
     self\<lparr>nemidmap := AList.update (ident netif) nemid (nemidmap self)\<rparr>"

definition getnemid :: "EmaneNet \<Rightarrow> CoreInterface \<Rightarrow> int option" where
  "getnemid self netif =
     (if ident netif \<notin> set (map fst (nemidmap self)) then None
      else map_of (nemidmap self) (ident netif))"

definition getnemnetif :: "EmaneNet \<Rightarrow> int \<Rightarrow> nat option" where
  "getnemnetif self nemid =
     map_option fst (find (\<lambda>kv. snd kv = nemid) (nemidmap self))"

definition nem_position ::
  "EmaneNet \<Rightarrow> CoreInterface \<Rightarrow> error + (int \<times> real \<times> real \<times> int) option" where
  "nem_position self netif =
     (case getnemid self netif of
        None \<Rightarrow> Inr None
      | Some nemid \<Rightarrow>
          (case getposition (node netif) of
             (x, y, z) \<Rightarrow>
               (case getgeo (session self) x y z of
                  (lat, lon, alt) \<Rightarrow>
                    (let alt1 = (case pos_alt (position (node netif)) of
                                   None \<Rightarrow> alt | Some a \<Rightarrow> a)
                     in (case py_round alt1 of
                           Inl e \<Rightarrow> Inl e
                         | Inr alt2 \<Rightarrow> Inr (Some (nemid, lon, lat, alt2)))))))"

definition setnemposition :: "CoreInterface \<Rightarrow> EmaneNet \<Rightarrow> (error + unit) \<times> EmaneNet" where
  "setnemposition netif self =
     (case service (session self) of
        None \<Rightarrow> (Inr (), self)
      | Some svc \<Rightarrow>
          (case nem_position self netif of
             Inl e \<Rightarrow> (Inl e, self)
           | Inr None \<Rightarrow> (Inr (), self)
           | Inr (Some (nemid, lon, lat, alt)) \<Rightarrow>
               (let event = LocationEvent_append nemid lat lon alt []
                in (Inr (), self\<lparr>session :=
                              (session self)\<lparr>service := Some (publish 0 event svc)\<rparr>\<rparr>))))"

text \<open>The loop of \<^verbatim>\<open>setnempositions\<close> over the moved interfaces; an exception raised for
  one interface ends it.\<close>

fun add_positions ::
  "EmaneNet \<Rightarrow> CoreInterface list \<Rightarrow> LocationEvent \<Rightarrow> error + LocationEvent" where
  "add_positions self [] event = Inr event"
| "add_positions self (netif # netifs) event =
     (case nem_position self netif of
        Inl e \<Rightarrow> Inl e
      | Inr None \<Rightarrow> add_positions self netifs event
      | Inr (Some (nemid, lon, lat, alt)) \<Rightarrow>
          add_positions self netifs (LocationEvent_append nemid lat lon alt event))"

definition setnempositions ::
  "CoreInterface list \<Rightarrow> EmaneNet \<Rightarrow> (error + unit) \<times> EmaneNet" where
  "setnempositions moved_netifs self =
     (if length moved_netifs = 0 then (Inr (), self)
      else
        (case service (session self) of
           None \<Rightarrow> (Inr (), self)
         | Some svc \<Rightarrow>
             (case add_positions self moved_netifs [] of
                Inl e \<Rightarrow> (Inl e, self)
              | Inr event \<Rightarrow>
                  (Inr (), self\<lparr>session :=
                             (session self)\<lparr>service := Some (publish 0 event svc)\<rparr>\<rparr>))))"

text \<open>The publish calls the sink has received; none when there is no sink.\<close>

definition publish_calls :: "EmaneNet \<Rightarrow> (nat \<times> LocationEvent) list" where
  "publish_calls self = (case service (session self) of None \<Rightarrow> [] | Some svc \<Rightarrow> published svc)"

text \<open>
  The position entry of one interface as the specification words it: nothing without
  an assigned numeric id, otherwise the id with the converted longitude and latitude
  and the resolved altitude (the explicit override when the node declares one, the
  converted altitude otherwise) rounded. An altitude that is not finite has no rounding
  and gives no entry.
\<close>

definition resolved_altitude :: "EmaneNet \<Rightarrow> CoreInterface \<Rightarrow> pyfloat" where
  "resolved_altitude self netif =
     (case pos_alt (position (node netif)) of
        Some a \<Rightarrow> a
      | None \<Rightarrow> snd (snd (getgeo (session self) (pos_x (position (node netif)))
                             (pos_y (position (node netif))) (pos_z (position (node netif))))))"

definition is_finite :: "pyfloat \<Rightarrow> bool" where
  "is_finite x = (case x of Finite r \<Rightarrow> True | PosInf \<Rightarrow> False | NegInf \<Rightarrow> False | NaN \<Rightarrow> False)"

definition resolved_entry :: "EmaneNet \<Rightarrow> CoreInterface \<Rightarrow> LocationEntry list" where
  "resolved_entry self netif =
     (case getnemid self netif of
        None \<Rightarrow> []
      | Some nemid \<Rightarrow>
          (let geo = getgeo (session self) (pos_x (position (node netif)))
                       (pos_y (position (node netif))) (pos_z (position (node netif)))
           in (case resolved_altitude self netif of
                 Finite r \<Rightarrow>
                   [\<lparr> nem = nemid, latitude = fst geo, longitude = fst (snd geo),
                      altitude = round_half_even r \<rparr>]
               | PosInf \<Rightarrow> [] | NegInf \<Rightarrow> [] | NaN \<Rightarrow> [])))"

text \<open>The entries of the events published between two states of the node.\<close>

definition new_entries :: "EmaneNet \<Rightarrow> EmaneNet \<Rightarrow> LocationEntry list" where
  "new_entries before after =
     concat (map snd (drop (length (publish_calls before)) (publish_calls after)))"

subsection \<open>The example node\<close>

text \<open>
  Node 7 with five interfaces: A (numeric id 10) converts to longitude 1, latitude 2,
  altitude 3.4; B has no numeric id; C (id 12) converts to altitude 12.6; D (id 13)
  sits on a node that declares the altitude 12.4; E (id 14) sits on a node whose
  declared altitude is a NaN.
\<close>

definition example_geo :: "real \<Rightarrow> real \<Rightarrow> real \<Rightarrow> real \<times> real \<times> pyfloat" where
  "example_geo x y z = (y / 100, x / 100, Finite (z + 2 / 5))"

definition netif_at :: "nat \<Rightarrow> string \<Rightarrow> real \<Rightarrow> pyfloat option \<Rightarrow> CoreInterface" where
  "netif_at i nm z a =
     \<lparr> ident = i, localname = nm,
       node = \<lparr> nodeid = int i,
                position = \<lparr> pos_x = 100, pos_y = 200, pos_z = z, pos_alt = a \<rparr> \<rparr> \<rparr>"

definition netif_A :: CoreInterface where
  "netif_A = netif_at 1 ''A'' 3 None"

definition netif_B :: CoreInterface where
  "netif_B = netif_at 2 ''B'' 5 None"

definition netif_C :: CoreInterface where
  "netif_C = netif_at 3 ''C'' (61 / 5) None"

definition netif_D :: CoreInterface where
  "netif_D = netif_at 4 ''D'' 40 (Some (Finite (62 / 5)))"

definition netif_E :: CoreInterface where
  "netif_E = netif_at 5 ''E'' 7 (Some NaN)"

definition net7 :: EmaneNet where
  "net7 =
     \<lparr> net_id = 7, conf = [], up = False,
       nemidmap = [(1, 10), (3, 12), (4, 13), (5, 14)],
       model = None, mobility = None,
       session = \<lparr> getgeo = example_geo, service = Some \<lparr> published = [] \<rparr> \<rparr> \<rparr>"

section \<open>Properties\<close>

subsection \<open>The configuration store and the model manager\<close>


lemma map_of_empty_iff: "map_of xs = Map.empty \<longleftrightarrow> xs = []"
  by (cases xs) (auto simp: fun_eq_iff)

lemma fold_merge_keys:
  "map_of (fold (\<lambda>key mc. case map_of cfg key of None \<Rightarrow> mc | Some value \<Rightarrow> AList.update key value mc) ks mc)
     = map_of mc ++ (map_of cfg |` set ks)"
proof (induction ks arbitrary: mc)
  case Nil
  show ?case by simp
next
  case (Cons k ks)
  show ?case
    by (cases "map_of cfg k")
       (auto simp: Cons.IH AList.update_conv' fun_eq_iff map_add_def restrict_map_def split: option.splits)
qed

lemma map_of_merge_config: "map_of (merge_config cfg mc) = map_of mc ++ map_of cfg"
proof -
  have "map_of cfg |` set (map fst cfg) = map_of cfg"
  proof (rule ext)
    fix x
    show "(map_of cfg |` set (map fst cfg)) x = map_of cfg x"
      by (cases "x \<in> fst ` set cfg") (auto simp: restrict_map_def map_of_eq_None_iff intro: sym)
  qed
  then show ?thesis
    unfolding merge_config_def by (simp add: fold_merge_keys)
qed

lemma merge_config_Nil: "merge_config [] mc = mc"
  by (simp add: merge_config_def)

lemma get_configs_set_configs:
  "get_configs n t (set_configs c n t s) = Some c"
  by (simp add: get_configs_def set_configs_def AList.update_conv')

lemma set_configs_triv:
  "get_configs n t s = Some c \<Longrightarrow> set_configs c n t s = s"
  by (auto simp: get_configs_def set_configs_def AList.update_triv split: option.splits if_splits)

lemma get_model_config_unregistered:
  "map_of (models s) m = None \<Longrightarrow>
     get_model_config n m s = (Inl (ValueError_invalid_model m), s)"
  by (simp add: get_model_config_def)

lemma get_model_config_seed:
  "map_of (models s) m = Some cls \<Longrightarrow> falsy (get_configs n (KStr m) s) \<Longrightarrow>
     get_model_config n m s =
       (Inr (default_values cls), set_configs (default_values cls) n (KStr m) s)"
  by (simp add: get_model_config_def Let_def)

lemma get_model_config_stored:
  "map_of (models s) m = Some cls \<Longrightarrow> get_configs n (KStr m) s = Some c \<Longrightarrow> c \<noteq> [] \<Longrightarrow>
     get_model_config n m s = (Inr c, s)"
  by (simp add: get_model_config_def Let_def falsy_def)

lemma models_set_configs: "models (set_configs c n t s) = models s"
  by (simp add: set_configs_def Let_def)

lemma node_models_set_configs: "node_models (set_configs c n t s) = node_models s"
  by (simp add: set_configs_def Let_def)


lemma get_model_config_registered:
  "map_of (models s) m = Some cls \<Longrightarrow>
     fst (get_model_config n m s) = Inr (stored_or_default n m cls s) \<and>
     get_configs n (KStr m) (snd (get_model_config n m s)) = Some (stored_or_default n m cls s) \<and>
     models (snd (get_model_config n m s)) = models s \<and>
     node_models (snd (get_model_config n m s)) = node_models s"
  by (auto simp: get_model_config_def Let_def stored_or_default_def falsy_def
        get_configs_set_configs models_set_configs node_models_set_configs split: option.splits)

lemma overrides_of_arg:
  "map_of (if falsy ov then [] else the ov) = overrides_of ov"
  by (auto simp: falsy_def overrides_of_def split: option.splits)

lemma set_model_config_registered:
  assumes "map_of (models s) m = Some cls"
  shows "fst (set_model_config n m ov s) = Inr ()"
    and "get_configs n (KStr m) (snd (set_model_config n m ov s)) =
           Some (merge_config (if falsy ov then [] else the ov) (stored_or_default n m cls s))"
    and "models (snd (set_model_config n m ov s)) = models s"
    and "map_of (node_models (snd (set_model_config n m ov s))) n = Some m"
proof -
  obtain r s1 where g: "get_model_config n m s = (r, s1)" by (cases "get_model_config n m s")
  from get_model_config_registered[OF assms, of n] g
  have r: "r = Inr (stored_or_default n m cls s)" and ms: "models s1 = models s" by simp_all
  show "fst (set_model_config n m ov s) = Inr ()"
    by (simp add: set_model_config_def assms g r Let_def)
  show "get_configs n (KStr m) (snd (set_model_config n m ov s)) =
           Some (merge_config (if falsy ov then [] else the ov) (stored_or_default n m cls s))"
    by (simp add: set_model_config_def assms g r Let_def get_configs_set_configs)
  show "models (snd (set_model_config n m ov s)) = models s"
    by (simp add: set_model_config_def assms g r Let_def models_set_configs ms)
  show "map_of (node_models (snd (set_model_config n m ov s))) n = Some m"
    by (simp add: set_model_config_def assms g r Let_def node_models_set_configs AList.update_conv')
qed

lemma stored_or_default_stored:
  "get_configs n (KStr m) s = Some c \<Longrightarrow> (c = [] \<Longrightarrow> default_values cls = []) \<Longrightarrow>
     stored_or_default n m cls s = c"
  by (auto simp: stored_or_default_def falsy_def)

lemma merge_config_eq_Nil:
  "merge_config cfg mc = [] \<Longrightarrow> mc = []"
proof -
  assume "merge_config cfg mc = []"
  then have "map_of mc ++ map_of cfg = Map.empty"
    using map_of_merge_config[of cfg mc] by simp
  then have "map_of mc = Map.empty" by simp
  then show "mc = []" by (simp add: map_of_empty_iff)
qed

lemma set_model_config_noop:
  assumes reg: "map_of (models s) m = Some cls"
      and st: "get_configs n (KStr m) s = Some c"
      and e: "c = [] \<Longrightarrow> default_values cls = []"
      and nm: "map_of (node_models s) n = Some m"
      and ov: "falsy ov"
  shows "set_model_config n m ov s = (Inr (), s)"
proof -
  have g: "get_model_config n m s = (Inr c, s)"
  proof (cases "c = []")
    case True
    then have "falsy (get_configs n (KStr m) s)" by (simp add: st falsy_def)
    from get_model_config_seed[OF reg this] e[OF True] True st
    show ?thesis by (simp add: set_configs_triv)
  next
    case False
    from get_model_config_stored[OF reg st False] show ?thesis .
  qed
  have u: "s\<lparr>node_models := AList.update n m (node_models s)\<rparr> = s"
    by (simp add: AList.update_triv[OF nm])
  show ?thesis
    by (simp add: set_model_config_def reg g ov merge_config_Nil u set_configs_triv[OF st])
qed

lemma set_model_config_calls_stored:
  assumes "map_of (models s) m = Some cls"
      and "get_configs n (KStr m) s = Some c"
      and "c = [] \<Longrightarrow> default_values cls = []"
      and "map_of (node_models s) n = Some m"
  shows "fst (set_model_config_calls n m calls s) = Inr () \<and>
         (\<exists>c'. get_configs n (KStr m) (snd (set_model_config_calls n m calls s)) = Some c' \<and>
               map_of c' = foldl (++) (map_of c) (map overrides_of calls) \<and>
               (c' = [] \<longrightarrow> default_values cls = [])) \<and>
         models (snd (set_model_config_calls n m calls s)) = models s \<and>
         map_of (node_models (snd (set_model_config_calls n m calls s))) n = Some m"
  using assms
proof (induction calls arbitrary: s c)
  case Nil
  then show ?case by auto
next
  case (Cons ov calls)
  let ?r = "set_model_config n m ov s"
  let ?c1 = "merge_config (if falsy ov then [] else the ov) c"
  note step = set_model_config_registered[OF Cons.prems(1), of n ov]
  have sd: "stored_or_default n m cls s = c"
    using Cons.prems(2,3) by (rule stored_or_default_stored)
  have ok: "fst ?r = Inr ()" by (rule step(1))
  have st1: "get_configs n (KStr m) (snd ?r) = Some ?c1"
    using step(2) by (simp add: sd)
  have reg1: "map_of (models (snd ?r)) m = Some cls"
    using step(3) Cons.prems(1) by simp
  have e1: "?c1 = [] \<Longrightarrow> default_values cls = []"
    using merge_config_eq_Nil Cons.prems(3) by blast
  have run: "set_model_config_calls n m (ov # calls) s = set_model_config_calls n m calls (snd ?r)"
    using ok by (cases ?r) simp
  have m1: "map_of ?c1 = map_of c ++ overrides_of ov"
    by (simp only: map_of_merge_config overrides_of_arg)
  from Cons.IH[OF reg1 st1 e1 step(4)] show ?case
    unfolding run by (simp add: m1 step(3))
qed

text \<open>
  Claim C2. For a model name that the registry does not hold, \<^verbatim>\<open>set_model_config\<close> and
  \<^verbatim>\<open>get_model_config\<close> both raise the invalid-model \<^verbatim>\<open>ValueError\<close>, and the manager
  (\<^verbatim>\<open>node_configurations\<close>, \<^verbatim>\<open>node_models\<close> and the registry) is afterwards what it was
  before the call.
\<close>
theorem unregistered_model_raises:
  assumes "map_of (models self) model_name = None"
  shows "set_model_config node_id model_name cfg self
           = (Inl (ValueError_invalid_model model_name), self) \<and>
         get_model_config node_id model_name self
           = (Inl (ValueError_invalid_model model_name), self)"
  using assms by (simp add: set_model_config_def get_model_config_def)

theorem unregistered_model_raises_witness:
  "set_model_config 5 ''two-ray'' (Some [(''range'', ''400'')]) manager0
     = (Inl (ValueError_invalid_model ''two-ray''), manager0) \<and>
   get_model_config 5 ''two-ray'' manager0
     = (Inl (ValueError_invalid_model ''two-ray''), manager0)"
proof -
  have h: "map_of (models manager0) ''two-ray'' = None"
    by (simp add: manager0_def)
  from unregistered_model_raises[OF h] show ?thesis by blast
qed

text \<open>
  Claim C1. Take a registered model and a node for which nothing is stored yet, and any
  non-empty sequence of \<^verbatim>\<open>set_model_config\<close> calls for them. No call raises, and the
  configuration stored afterwards maps every key as the model's default values
  overridden by the override maps of the calls in call order, a later call winning per
  key. A further call with an empty override map changes nothing at all.
\<close>
theorem set_model_config_merges:
  assumes reg: "map_of (models self) model_name = Some model_class"
      and fresh: "falsy (get_configs node_id (KStr model_name) self)"
      and ne: "calls \<noteq> []"
  shows "fst (set_model_config_calls node_id model_name calls self) = Inr () \<and>
         map_option map_of
           (get_configs node_id (KStr model_name)
              (snd (set_model_config_calls node_id model_name calls self)))
           = Some (foldl (++) (map_of (default_values model_class)) (map overrides_of calls)) \<and>
         set_model_config node_id model_name (Some [])
           (snd (set_model_config_calls node_id model_name calls self))
           = (Inr (), snd (set_model_config_calls node_id model_name calls self))"
proof -
  obtain ov rest where calls: "calls = ov # rest" using ne by (cases calls) auto
  let ?r = "set_model_config node_id model_name ov self"
  let ?c1 = "merge_config (if falsy ov then [] else the ov) (default_values model_class)"
  note step = set_model_config_registered[OF reg, of node_id ov]
  have sd: "stored_or_default node_id model_name model_class self = default_values model_class"
    using fresh by (simp add: stored_or_default_def)
  have st1: "get_configs node_id (KStr model_name) (snd ?r) = Some ?c1"
    using step(2) by (simp add: sd)
  have reg1: "map_of (models (snd ?r)) model_name = Some model_class"
    using step(3) reg by simp
  have e1: "?c1 = [] \<Longrightarrow> default_values model_class = []"
    by (rule merge_config_eq_Nil)
  have run: "set_model_config_calls node_id model_name calls self
               = set_model_config_calls node_id model_name rest (snd ?r)"
    using step(1) by (cases ?r) (simp add: calls)
  have m1: "map_of ?c1 = map_of (default_values model_class) ++ overrides_of ov"
    by (simp only: map_of_merge_config overrides_of_arg)
  from set_model_config_calls_stored[OF reg1 st1 e1 step(4), of rest]
  obtain c' where ok: "fst (set_model_config_calls node_id model_name rest (snd ?r)) = Inr ()"
    and st: "get_configs node_id (KStr model_name)
               (snd (set_model_config_calls node_id model_name rest (snd ?r))) = Some c'"
    and mp: "map_of c' = foldl (++) (map_of ?c1) (map overrides_of rest)"
    and e: "c' = [] \<Longrightarrow> default_values model_class = []"
    and reg2: "models (snd (set_model_config_calls node_id model_name rest (snd ?r)))
                 = models (snd ?r)"
    and nm: "map_of (node_models (snd (set_model_config_calls node_id model_name rest (snd ?r))))
               node_id = Some model_name"
    by blast
  have reg3: "map_of (models (snd (set_model_config_calls node_id model_name rest (snd ?r))))
                model_name = Some model_class"
    using reg2 reg1 by simp
  have noop: "set_model_config node_id model_name (Some [])
                (snd (set_model_config_calls node_id model_name rest (snd ?r)))
              = (Inr (), snd (set_model_config_calls node_id model_name rest (snd ?r)))"
    by (rule set_model_config_noop[OF reg3 st e nm]) (simp_all add: falsy_def)
  have fl: "foldl (++) (map_of (default_values model_class)) (map overrides_of calls)
              = foldl (++) (map_of ?c1) (map overrides_of rest)"
    by (simp add: calls m1)
  show ?thesis
    unfolding run fl using ok st mp noop by simp
qed

theorem set_model_config_merges_witness:
  "fst (set_model_config_calls 5 ''basic-range'' [Some [(''range'', ''400'')], Some []] manager0)
     = Inr () \<and>
   get_configs 5 (KStr ''basic-range'')
     (snd (set_model_config_calls 5 ''basic-range'' [Some [(''range'', ''400'')], Some []] manager0))
     = Some [(''range'', ''400'')] \<and>
   map_of [(''range'', ''400'')]
     = foldl (++) (map_of (default_values basic_range))
         (map overrides_of [Some [(''range'', ''400'')], Some []])"
proof -
  have h1: "map_of (models manager0) ''basic-range'' = Some basic_range"
    by (simp add: manager0_def)
  have h2: "falsy (get_configs 5 (KStr ''basic-range'') manager0)"
    by (simp add: manager0_def get_configs_def falsy_def)
  have h3: "[Some [(''range'', ''400'')], Some []] \<noteq> []" by simp
  have ev: "get_configs 5 (KStr ''basic-range'')
     (snd (set_model_config_calls 5 ''basic-range'' [Some [(''range'', ''400'')], Some []] manager0))
     = Some [(''range'', ''400'')]"
    by (simp add: manager0_def basic_range_def Configuration_init_def set_model_config_def
          get_model_config_def get_configs_def set_configs_def falsy_def default_values_def
          configurations_def merge_config_def Let_def)
  from set_model_config_merges[OF h1 h2 h3] ev show ?thesis by simp
qed

lemma get_model_config_again:
  assumes reg: "map_of (models s) m = Some cls"
  shows "get_model_config n m (snd (get_model_config n m s)) = get_model_config n m s"
proof -
  let ?c = "stored_or_default n m cls s"
  let ?s1 = "snd (get_model_config n m s)"
  note g = get_model_config_registered[OF reg, of n]
  have reg1: "map_of (models ?s1) m = Some cls" using g reg by simp
  have st1: "get_configs n (KStr m) ?s1 = Some ?c" using g by simp
  have first: "get_model_config n m s = (Inr ?c, ?s1)"
    using g by (cases "get_model_config n m s") simp
  have "get_model_config n m ?s1 = (Inr ?c, ?s1)"
  proof (cases "?c = []")
    case True
    have d: "default_values cls = []"
      using True by (auto simp: stored_or_default_def falsy_def split: if_splits option.splits)
    have "falsy (get_configs n (KStr m) ?s1)" by (simp add: st1 True falsy_def)
    from get_model_config_seed[OF reg1 this] show ?thesis
      using st1 True d by (simp add: set_configs_triv)
  next
    case False
    from get_model_config_stored[OF reg1 st1 False] show ?thesis .
  qed
  with first show ?thesis by simp
qed

lemma after_get_model_config_fixed:
  "snd (get_model_config n m s) = s \<Longrightarrow> after_get_model_config k n m s = s"
  by (induction k) simp_all

text \<open>
  Claim C9. For a registered model, \<^verbatim>\<open>get_model_config\<close> returns a configuration;
  after one call or more the manager is in the state the first call left, and the next
  call returns the mapping the first call returned and leaves that state as it is.
\<close>
theorem get_model_config_idempotent:
  assumes "map_of (models self) model_name = Some model_class"
  shows "(\<exists>cfg. fst (get_model_config node_id model_name self) = Inr cfg) \<and>
         after_get_model_config (Suc k) node_id model_name self
           = snd (get_model_config node_id model_name self) \<and>
         get_model_config node_id model_name (after_get_model_config (Suc k) node_id model_name self)
           = (fst (get_model_config node_id model_name self),
              after_get_model_config (Suc k) node_id model_name self)"
proof -
  let ?g = "get_model_config node_id model_name self"
  have again: "get_model_config node_id model_name (snd ?g) = ?g"
    using assms by (rule get_model_config_again)
  then have fx: "snd (get_model_config node_id model_name (snd ?g)) = snd ?g" by simp
  have st: "after_get_model_config (Suc k) node_id model_name self = snd ?g"
    using after_get_model_config_fixed[OF fx, of k] by simp
  have ok: "\<exists>cfg. fst ?g = Inr cfg"
    using get_model_config_registered[OF assms, of node_id] by blast
  show ?thesis using ok again by (simp only: st) simp
qed

theorem get_model_config_idempotent_witness:
  "fst (get_model_config 5 ''basic-range'' manager0) = Inr [(''range'', ''275'')] \<and>
   snd (get_model_config 5 ''basic-range'' manager0) \<noteq> manager0 \<and>
   get_model_config 5 ''basic-range'' (after_get_model_config (Suc 2) 5 ''basic-range'' manager0)
     = (Inr [(''range'', ''275'')], snd (get_model_config 5 ''basic-range'' manager0))"
proof -
  have h: "map_of (models manager0) ''basic-range'' = Some basic_range"
    by (simp add: manager0_def)
  have ev: "get_model_config 5 ''basic-range'' manager0
    = (Inr [(''range'', ''275'')],
       manager0\<lparr>node_configurations := [(5, [(KStr ''basic-range'', [(''range'', ''275'')])])]\<rparr>)"
    by (simp add: manager0_def basic_range_def Configuration_init_def
          get_model_config_def get_configs_def set_configs_def falsy_def default_values_def
          configurations_def Let_def)
  have ne: "snd (get_model_config 5 ''basic-range'' manager0) \<noteq> manager0"
    by (simp add: ev) (simp add: manager0_def)
  note t = get_model_config_idempotent[OF h, of 5 2]
  have a: "after_get_model_config (Suc 2) 5 ''basic-range'' manager0
             = snd (get_model_config 5 ''basic-range'' manager0)"
    using t by blast
  have b: "get_model_config 5 ''basic-range'' (snd (get_model_config 5 ''basic-range'' manager0))
             = (fst (get_model_config 5 ''basic-range'' manager0),
                snd (get_model_config 5 ''basic-range'' manager0))"
    using t unfolding a by blast
  have c: "fst (get_model_config 5 ''basic-range'' manager0) = Inr [(''range'', ''275'')]"
    by (simp add: ev)
  show ?thesis
    unfolding a using b c ne by simp
qed

text \<open>
  Claim C8, evaluated where the code departs from it: \<^verbatim>\<open>config_reset(0)\<close> on a store
  holding the scopes 0 and 5 removes the configuration of scope 5 as well, since
  \<^verbatim>\<open>not node_id\<close> is true of the node id 0.
\<close>
theorem config_reset_node_zero_clears_all:
  "get_configs 5 (KStr ''basic-range'') manager2 = Some [(''range'', ''400'')] \<and>
   get_configs 5 (KStr ''basic-range'') (config_reset (Some 0) manager2) = None \<and>
   node_configurations (config_reset (Some 0) manager2) = []"
  by (simp add: manager2_def manager0_def config_reset_def get_configs_def)

lemma config_reset_one_scope:
  assumes "n \<noteq> 0"
  shows "get_all_configs n (config_reset (Some n) s) = None"
    and "n' \<noteq> n \<Longrightarrow> get_all_configs n' (config_reset (Some n) s) = get_all_configs n' s"
proof -
  show "get_all_configs n (config_reset (Some n) s) = None"
  proof (cases "n \<in> set (map fst (node_configurations s))")
    case True
    then show ?thesis
      using assms by (simp add: config_reset_def get_all_configs_def AList.delete_conv')
  next
    case False
    then have "map_of (node_configurations s) n = None"
      by (simp add: map_of_eq_None_iff)
    with False show ?thesis
      using assms by (simp add: config_reset_def get_all_configs_def)
  qed
  show "n' \<noteq> n \<Longrightarrow> get_all_configs n' (config_reset (Some n) s) = get_all_configs n' s"
    using assms by (simp add: config_reset_def get_all_configs_def AList.delete_conv')
qed

lemma config_reset_all: "node_configurations (config_reset None s) = []"
  by (simp add: config_reset_def)

subsection \<open>The network node and its position events\<close>


lemma nem_position_no_id:
  "getnemid self netif = None \<Longrightarrow> nem_position self netif = Inr None"
  by (simp add: nem_position_def)

lemma nem_position_None:
  "nem_position self netif = Inr None \<Longrightarrow> resolved_entry self netif = []"
  by (auto simp: nem_position_def resolved_entry_def getposition_def Let_def
        split: option.splits prod.splits sum.splits)

lemma nem_position_Some:
  "nem_position self netif = Inr (Some (nemid, lon, lat, alt)) \<Longrightarrow>
     resolved_entry self netif
       = [\<lparr> nem = nemid, latitude = lat, longitude = lon, altitude = alt \<rparr>]"
  by (auto simp: nem_position_def resolved_entry_def resolved_altitude_def getposition_def
        py_round_def Let_def split: option.splits prod.splits sum.splits pyfloat.splits)

lemma nem_position_returns:
  "getnemid self netif = None \<or> is_finite (resolved_altitude self netif) \<Longrightarrow>
     \<exists>p. nem_position self netif = Inr p"
  by (auto simp: nem_position_def resolved_altitude_def getposition_def is_finite_def
        py_round_def Let_def split: option.splits prod.splits pyfloat.splits)

lemma add_positions_Inr:
  "add_positions self netifs event = Inr ev \<Longrightarrow>
     ev = event @ concat (map (resolved_entry self) netifs)"
proof (induction netifs arbitrary: event)
  case Nil
  then show ?case by simp
next
  case (Cons netif netifs)
  show ?case
  proof (cases "nem_position self netif")
    case (Inl e)
    with Cons.prems show ?thesis by simp
  next
    case (Inr p)
    show ?thesis
    proof (cases p)
      case None
      with Inr Cons.prems have "add_positions self netifs event = Inr ev" by simp
      from Cons.IH[OF this] nem_position_None[of self netif] Inr None
      show ?thesis by simp
    next
      case (Some q)
      obtain nemid lon lat alt where q: "q = (nemid, lon, lat, alt)" by (cases q) auto
      with Inr Some Cons.prems
      have "add_positions self netifs (LocationEvent_append nemid lat lon alt event) = Inr ev"
        by simp
      from Cons.IH[OF this] nem_position_Some[of self netif nemid lon lat alt] Inr Some q
      show ?thesis by (simp add: LocationEvent_append_def)
    qed
  qed
qed

lemma add_positions_returns:
  "\<forall>netif \<in> set netifs. getnemid self netif = None \<or> is_finite (resolved_altitude self netif)
     \<Longrightarrow> \<exists>ev. add_positions self netifs event = Inr ev"
proof (induction netifs arbitrary: event)
  case Nil
  then show ?case by simp
next
  case (Cons netif netifs)
  from Cons.prems nem_position_returns[of self netif]
  obtain p where p: "nem_position self netif = Inr p" by auto
  from Cons.prems have rest:
    "\<forall>n \<in> set netifs. getnemid self n = None \<or> is_finite (resolved_altitude self n)"
    by simp
  show ?case
  proof (cases p)
    case None
    with p Cons.IH[OF rest, of event] show ?thesis by simp
  next
    case (Some q)
    obtain nemid lon lat alt where q: "q = (nemid, lon, lat, alt)" by (cases q) auto
    with p Some Cons.IH[OF rest, of "LocationEvent_append nemid lat lon alt event"]
    show ?thesis by simp
  qed
qed

lemma add_positions_finite:
  assumes "\<forall>netif \<in> set netifs.
             getnemid self netif = None \<or> is_finite (resolved_altitude self netif)"
  shows "add_positions self netifs event
           = Inr (event @ concat (map (resolved_entry self) netifs))"
proof -
  from add_positions_returns[OF assms, of event]
  obtain ev where ev: "add_positions self netifs event = Inr ev" by blast
  from add_positions_Inr[OF ev] ev show ?thesis by simp
qed

lemma round_half_even_nearest: "\<bar>real_of_int (round_half_even r) - r\<bar> \<le> 1 / 2"
  unfolding round_half_even_def Let_def by (auto; linarith)

lemma round_half_even_tie:
  "\<bar>real_of_int (round_half_even r) - r\<bar> = 1 / 2 \<Longrightarrow> even (round_half_even r)"
  unfolding round_half_even_def Let_def by (auto split: if_splits; linarith)

lemma setnempositions_available:
  assumes "service (session self) = Some svc" and "moved_netifs \<noteq> []"
      and "\<forall>netif \<in> set moved_netifs.
             getnemid self netif = None \<or> is_finite (resolved_altitude self netif)"
  shows "setnempositions moved_netifs self =
           (Inr (), self\<lparr>session := (session self)\<lparr>service :=
              Some (publish 0 (concat (map (resolved_entry self) moved_netifs)) svc)\<rparr>\<rparr>)"
  using assms(1,2) by (simp add: setnempositions_def add_positions_finite[OF assms(3)])

lemma setnempositions_raises:
  assumes "service (session self) = Some svc" and "moved_netifs \<noteq> []"
      and "add_positions self moved_netifs [] = Inl e"
  shows "setnempositions moved_netifs self = (Inl e, self)"
  using assms by (simp add: setnempositions_def)

lemma resolved_entry_cases:
  "e \<in> set (resolved_entry self netif) \<Longrightarrow>
     getnemid self netif = Some (nem e) \<and>
     (\<exists>r. resolved_altitude self netif = Finite r \<and> altitude e = round_half_even r)"
  by (cases "resolved_altitude self netif")
     (auto simp: resolved_entry_def Let_def split: option.splits)

text \<open>
  Claim C3, as the code has it. With the sink available and a non-empty list of moved
  interfaces, each of which either has no numeric id or resolves to a finite altitude,
  \<^verbatim>\<open>setnempositions\<close> raises nothing and makes exactly one more publish call, on
  channel 0; the event's entries are the resolved positions of the interfaces in the order
  of the list, an interface without a numeric id contributing no entry.
\<close>

theorem setnempositions_publishes_one_event:
  assumes "service (session self) = Some svc" and "moved_netifs \<noteq> []"
      and "\<forall>netif \<in> set moved_netifs.
             getnemid self netif = None \<or> is_finite (resolved_altitude self netif)"
  shows "fst (setnempositions moved_netifs self) = Inr () \<and>
         publish_calls (snd (setnempositions moved_netifs self))
           = publish_calls self @ [(0, concat (map (resolved_entry self) moved_netifs))]"
  using assms(1)
  by (simp add: setnempositions_available[OF assms] publish_calls_def publish_def)

theorem setnempositions_publishes_one_event_witness:
  "fst (setnempositions [netif_A, netif_B] net7) = Inr () \<and>
   publish_calls (snd (setnempositions [netif_A, netif_B] net7))
     = [(0, [\<lparr> nem = 10, latitude = 2, longitude = 1, altitude = 3 \<rparr>])]"
proof -
  have h1: "service (session net7) = Some \<lparr> published = [] \<rparr>" by (simp add: net7_def)
  have h2: "[netif_A, netif_B] \<noteq> []" by simp
  have fl: "\<lfloor>17 / 5 :: real\<rfloor> = 3" by linarith
  have ra: "resolved_altitude net7 netif_A = Finite (17 / 5)"
    by (simp add: resolved_altitude_def net7_def netif_A_def netif_at_def example_geo_def)
  have nb: "getnemid net7 netif_B = None"
    by (simp add: getnemid_def net7_def netif_B_def netif_at_def)
  have h3: "\<forall>netif \<in> set [netif_A, netif_B].
              getnemid net7 netif = None \<or> is_finite (resolved_altitude net7 netif)"
    by (simp add: ra nb is_finite_def)
  have a: "resolved_entry net7 netif_A
             = [\<lparr> nem = 10, latitude = 2, longitude = 1, altitude = 3 \<rparr>]"
    unfolding resolved_entry_def ra
    by (simp add: getnemid_def net7_def netif_A_def
          netif_at_def example_geo_def round_half_even_def Let_def fl)
  have b: "resolved_entry net7 netif_B = []"
    by (simp add: resolved_entry_def nb)
  have p: "publish_calls net7 = []" by (simp add: publish_calls_def net7_def)
  from setnempositions_publishes_one_event[OF h1 h2 h3] show ?thesis
    by (simp add: a b p)
qed

text \<open>
  The claim as the specification words it fails: interface E has a numeric id and its
  node declares a NaN altitude, so \<^verbatim>\<open>int(round(alt))\<close> raises inside the loop; with the sink
  available and the list A, E the call ends in that \<^verbatim>\<open>ValueError\<close> and the sink has
  received nothing, not even the position of A.
\<close>

theorem setnempositions_nan_altitude_counterexample:
  "service (session net7) = Some \<lparr> published = [] \<rparr> \<and>
   fst (setnempositions [netif_A, netif_E] net7) = Inl ValueError_nan_to_integer \<and>
   publish_calls (snd (setnempositions [netif_A, netif_E] net7)) = []"
proof -
  have h1: "service (session net7) = Some \<lparr> published = [] \<rparr>" by (simp add: net7_def)
  have fl: "\<lfloor>17 / 5 :: real\<rfloor> = 3" by linarith
  have a: "nem_position net7 netif_A = Inr (Some (10, 1, 2, 3))"
    by (simp add: nem_position_def getnemid_def getposition_def net7_def netif_A_def
          netif_at_def example_geo_def py_round_def round_half_even_def Let_def fl)
  have e: "nem_position net7 netif_E = Inl ValueError_nan_to_integer"
    by (simp add: nem_position_def getnemid_def getposition_def net7_def netif_E_def
          netif_at_def example_geo_def py_round_def Let_def)
  have l: "add_positions net7 [netif_A, netif_E] [] = Inl ValueError_nan_to_integer"
    by (simp add: a e)
  have "setnempositions [netif_A, netif_E] net7 = (Inl ValueError_nan_to_integer, net7)"
    by (simp only: setnempositions_def l) (simp add: h1)
  then show ?thesis by (simp add: h1 publish_calls_def)
qed

text \<open>
  Claim C4. With an empty list of moved interfaces, or without a sink,
  \<^verbatim>\<open>setnempositions\<close> raises nothing and leaves the node and its session as they were:
  the sink receives no call.
\<close>

theorem setnempositions_noop:
  assumes "moved_netifs = [] \<or> service (session self) = None"
  shows "setnempositions moved_netifs self = (Inr (), self) \<and>
         publish_calls (snd (setnempositions moved_netifs self)) = publish_calls self"
  using assms by (auto simp: setnempositions_def)

theorem setnempositions_noop_witness:
  "setnempositions [] net7 = (Inr (), net7) \<and>
   setnempositions [netif_A, netif_B] (net7\<lparr>session := (session net7)\<lparr>service := None\<rparr>\<rparr>)
     = (Inr (), net7\<lparr>session := (session net7)\<lparr>service := None\<rparr>\<rparr>)"
proof -
  have h1: "[] = ([] :: CoreInterface list) \<or> service (session net7) = None" by simp
  have h2: "[netif_A, netif_B] = [] \<or>
            service (session (net7\<lparr>session := (session net7)\<lparr>service := None\<rparr>\<rparr>)) = None"
    by simp
  from setnempositions_noop[OF h1] setnempositions_noop[OF h2] show ?thesis by blast
qed



lemma new_entries_setnempositions:
  "set (new_entries self (snd (setnempositions moved_netifs self)))
     \<subseteq> (\<Union>netif \<in> set moved_netifs. set (resolved_entry self netif))"
proof (cases "moved_netifs = [] \<or> service (session self) = None")
  case True
  then have "setnempositions moved_netifs self = (Inr (), self)"
    by (auto simp: setnempositions_def)
  then show ?thesis by (simp add: new_entries_def)
next
  case False
  then obtain svc where s: "service (session self) = Some svc" and n: "moved_netifs \<noteq> []" by auto
  show ?thesis
  proof (cases "add_positions self moved_netifs []")
    case (Inl e)
    from setnempositions_raises[OF s n Inl] show ?thesis by (simp add: new_entries_def)
  next
    case (Inr ev)
    from add_positions_Inr[OF Inr] have "ev = concat (map (resolved_entry self) moved_netifs)"
      by simp
    with Inr s n show ?thesis
      by (simp add: setnempositions_def new_entries_def publish_calls_def publish_def)
  qed
qed

lemma new_entries_setnemposition:
  "set (new_entries self (snd (setnemposition netif self))) \<subseteq> set (resolved_entry self netif)"
proof (cases "service (session self)")
  case None
  then show ?thesis by (simp add: setnemposition_def new_entries_def)
next
  case (Some svc)
  show ?thesis
  proof (cases "nem_position self netif")
    case (Inl e)
    with Some show ?thesis by (simp add: setnemposition_def new_entries_def)
  next
    case (Inr p)
    show ?thesis
    proof (cases p)
      case None
      with Inr Some show ?thesis by (simp add: setnemposition_def new_entries_def)
    next
      case (Some q)
      obtain nemid lon lat alt where q: "q = (nemid, lon, lat, alt)" by (cases q) auto
      from nem_position_Some[of self netif nemid lon lat alt] Inr Some q
      have "resolved_entry self netif
              = [\<lparr> nem = nemid, latitude = lat, longitude = lon, altitude = alt \<rparr>]"
        by simp
      with Inr Some q \<open>service (session self) = Some svc\<close> show ?thesis
        by (simp add: setnemposition_def new_entries_def publish_calls_def publish_def
              LocationEvent_append_def)
    qed
  qed
qed

text \<open>
  Claim C5. Every entry that \<^verbatim>\<open>setnempositions\<close> or \<^verbatim>\<open>setnemposition\<close> publishes belongs
  to one of the given interfaces and carries its numeric id; its altitude is the integer
  that Python's \<^verbatim>\<open>int(round(alt))\<close> gives for the resolved altitude (the declared altitude
  of the node when there is one, the converted altitude otherwise), which is finite and
  lies within one half of it.
\<close>

theorem published_altitude_rounded:
  "(\<forall>e \<in> set (new_entries self (snd (setnempositions moved_netifs self))).
      \<exists>netif \<in> set moved_netifs.
        getnemid self netif = Some (nem e) \<and>
        py_round (resolved_altitude self netif) = Inr (altitude e) \<and>
        (\<exists>r. resolved_altitude self netif = Finite r \<and>
             \<bar>real_of_int (altitude e) - r\<bar> \<le> 1 / 2)) \<and>
   (\<forall>e \<in> set (new_entries self (snd (setnemposition netif1 self))).
        getnemid self netif1 = Some (nem e) \<and>
        py_round (resolved_altitude self netif1) = Inr (altitude e) \<and>
        (\<exists>r. resolved_altitude self netif1 = Finite r \<and>
             \<bar>real_of_int (altitude e) - r\<bar> \<le> 1 / 2))"
proof (rule conjI; rule ballI)
  fix e
  assume "e \<in> set (new_entries self (snd (setnempositions moved_netifs self)))"
  with new_entries_setnempositions obtain netif
    where n: "netif \<in> set moved_netifs" and e: "e \<in> set (resolved_entry self netif)"
    by blast
  from resolved_entry_cases[OF e] obtain r
    where i: "getnemid self netif = Some (nem e)"
      and r: "resolved_altitude self netif = Finite r" "altitude e = round_half_even r"
    by blast
  have "py_round (resolved_altitude self netif) = Inr (altitude e)"
    by (simp add: py_round_def r)
  moreover have "\<bar>real_of_int (altitude e) - r\<bar> \<le> 1 / 2"
    using round_half_even_nearest[of r] r(2) by simp
  ultimately show "\<exists>netif \<in> set moved_netifs.
        getnemid self netif = Some (nem e) \<and>
        py_round (resolved_altitude self netif) = Inr (altitude e) \<and>
        (\<exists>r. resolved_altitude self netif = Finite r \<and>
             \<bar>real_of_int (altitude e) - r\<bar> \<le> 1 / 2)"
    using n i r(1) by blast
next
  fix e
  assume "e \<in> set (new_entries self (snd (setnemposition netif1 self)))"
  with new_entries_setnemposition have e: "e \<in> set (resolved_entry self netif1)"
    by blast
  from resolved_entry_cases[OF e] obtain r
    where i: "getnemid self netif1 = Some (nem e)"
      and r: "resolved_altitude self netif1 = Finite r" "altitude e = round_half_even r"
    by blast
  have "py_round (resolved_altitude self netif1) = Inr (altitude e)"
    by (simp add: py_round_def r)
  moreover have "\<bar>real_of_int (altitude e) - r\<bar> \<le> 1 / 2"
    using round_half_even_nearest[of r] r(2) by simp
  ultimately show "getnemid self netif1 = Some (nem e) \<and>
        py_round (resolved_altitude self netif1) = Inr (altitude e) \<and>
        (\<exists>r. resolved_altitude self netif1 = Finite r \<and>
             \<bar>real_of_int (altitude e) - r\<bar> \<le> 1 / 2)"
    using i r(1) by blast
qed

theorem published_altitude_rounded_witness:
  "new_entries net7 (snd (setnempositions [netif_C, netif_D] net7))
     = [\<lparr> nem = 12, latitude = 2, longitude = 1, altitude = 13 \<rparr>,
        \<lparr> nem = 13, latitude = 2, longitude = 1, altitude = 12 \<rparr>] \<and>
   resolved_altitude net7 netif_C = Finite (63 / 5) \<and> py_round (Finite (63 / 5)) = Inr 13 \<and>
   resolved_altitude net7 netif_D = Finite (62 / 5) \<and> py_round (Finite (62 / 5)) = Inr 12"
proof -
  have fl: "\<lfloor>63 / 5 :: real\<rfloor> = 12" "\<lfloor>62 / 5 :: real\<rfloor> = 12" by linarith+
  have c: "resolved_altitude net7 netif_C = Finite (63 / 5)"
    by (simp add: resolved_altitude_def net7_def netif_C_def netif_at_def example_geo_def)
  have d: "resolved_altitude net7 netif_D = Finite (62 / 5)"
    by (simp add: resolved_altitude_def net7_def netif_D_def netif_at_def)
  have rc: "resolved_entry net7 netif_C
              = [\<lparr> nem = 12, latitude = 2, longitude = 1, altitude = 13 \<rparr>]"
    unfolding resolved_entry_def c
    by (simp add: getnemid_def net7_def netif_C_def netif_at_def example_geo_def
          round_half_even_def Let_def fl)
  have rd: "resolved_entry net7 netif_D
              = [\<lparr> nem = 13, latitude = 2, longitude = 1, altitude = 12 \<rparr>]"
    unfolding resolved_entry_def d
    by (simp add: getnemid_def net7_def netif_D_def netif_at_def example_geo_def
          round_half_even_def Let_def fl)
  have h1: "service (session net7) = Some \<lparr> published = [] \<rparr>" by (simp add: net7_def)
  have h3: "\<forall>netif \<in> set [netif_C, netif_D].
              getnemid net7 netif = None \<or> is_finite (resolved_altitude net7 netif)"
    by (simp add: c d is_finite_def)
  have ev: "new_entries net7 (snd (setnempositions [netif_C, netif_D] net7))
     = [\<lparr> nem = 12, latitude = 2, longitude = 1, altitude = 13 \<rparr>,
        \<lparr> nem = 13, latitude = 2, longitude = 1, altitude = 12 \<rparr>]"
    by (simp add: setnempositions_available[OF h1 _ h3] new_entries_def h1 rc rd
          publish_calls_def publish_def)
  have r: "py_round (Finite (63 / 5)) = Inr 13" "py_round (Finite (62 / 5)) = Inr 12"
    by (simp_all add: py_round_def round_half_even_def Let_def fl)
  from published_altitude_rounded[of net7 "[netif_C, netif_D]" netif_C] ev c d r
  show ?thesis by simp
qed

text \<open>
  Claim C6, as the code has it: \<^verbatim>\<open>setmodel\<close> with a model class whose \<^verbatim>\<open>config_type\<close> is
  neither \<^verbatim>\<open>WIRELESS\<close> nor \<^verbatim>\<open>MOBILITY\<close> raises nothing and leaves the node, with its
  radio model and its mobility model, as it was.
\<close>

theorem setmodel_other_role_ignored:
  assumes "config_type cls \<noteq> WIRELESS" and "config_type cls \<noteq> MOBILITY"
  shows "setmodel cls cfg self = (Inr (), self)"
  using assms by (simp add: setmodel_def)

theorem setmodel_other_role_ignored_witness:
  "config_type (basic_range\<lparr>config_type := OTHER 4\<rparr>) \<noteq> WIRELESS \<and>
   config_type (basic_range\<lparr>config_type := OTHER 4\<rparr>) \<noteq> MOBILITY \<and>
   setmodel (basic_range\<lparr>config_type := OTHER 4\<rparr>) [(''range'', ''400'')] net7 = (Inr (), net7)"
proof -
  have h1: "config_type (basic_range\<lparr>config_type := OTHER 4\<rparr>) \<noteq> WIRELESS" by simp
  have h2: "config_type (basic_range\<lparr>config_type := OTHER 4\<rparr>) \<noteq> MOBILITY" by simp
  from setmodel_other_role_ignored[OF h1 h2] h1 h2 show ?thesis by blast
qed

text \<open>
  The claim as the specification words it fails: for the class \<^verbatim>\<open>plain\<close>, whose role is
  neither of the two, \<^verbatim>\<open>setmodel\<close> returns normally.
\<close>

theorem setmodel_other_role_counterexample:
  "config_type no_options \<noteq> WIRELESS \<and> config_type no_options \<noteq> MOBILITY \<and>
   \<not> isl (fst (setmodel no_options [] net7)) \<and>
   snd (setmodel no_options [] net7) = net7"
  by (simp add: setmodel_def no_options_def)

text \<open>
  Claim C7. \<^verbatim>\<open>updatemodel\<close> on a node without a radio model raises the no-model
  \<^verbatim>\<open>ValueError\<close> and changes nothing; on a node with a radio model it raises nothing and
  the model receives \<^verbatim>\<open>set_configs(config, node_id=self.id)\<close> as its next call.
\<close>

theorem updatemodel_forwards_or_raises:
  "(model self = None \<longrightarrow>
      updatemodel cfg self = (Inl (ValueError_no_model_set (net_id self)), self)) \<and>
   (\<forall>m. model self = Some m \<longrightarrow>
      fst (updatemodel cfg self) = Inr () \<and>
      snd (updatemodel cfg self)
        = self\<lparr>model := Some (m\<lparr>received := received m @ [Set_configs cfg (net_id self)]\<rparr>)\<rparr>)"
  by (simp add: updatemodel_def receive_def)

theorem updatemodel_forwards_or_raises_witness:
  "model net7 = None \<and>
   updatemodel [(''range'', ''400'')] net7 = (Inl (ValueError_no_model_set 7), net7) \<and>
   model (snd (setmodel basic_range [] net7))
     = Some \<lparr> instance_of = basic_range, bound_id = 7, received = [Update_config []] \<rparr> \<and>
   fst (updatemodel [(''range'', ''400'')] (snd (setmodel basic_range [] net7))) = Inr () \<and>
   model (snd (updatemodel [(''range'', ''400'')] (snd (setmodel basic_range [] net7))))
     = Some \<lparr> instance_of = basic_range, bound_id = 7,
              received = [Update_config [], Set_configs [(''range'', ''400'')] 7] \<rparr>"
proof -
  have h1: "model net7 = None" by (simp add: net7_def)
  have i: "net_id net7 = 7" by (simp add: net7_def)
  have h2: "model (snd (setmodel basic_range [] net7))
     = Some \<lparr> instance_of = basic_range, bound_id = 7, received = [Update_config []] \<rparr>"
    by (simp add: setmodel_def basic_range_def new_instance_def receive_def i)
  have i2: "net_id (snd (setmodel basic_range [] net7)) = 7"
    by (simp add: setmodel_def basic_range_def i)
  from updatemodel_forwards_or_raises[of net7 "[(''range'', ''400'')]"]
       updatemodel_forwards_or_raises[of "snd (setmodel basic_range [] net7)" "[(''range'', ''400'')]"]
       h1 h2 i i2
  show ?thesis by simp
qed

end
